theory Spec2Isabelle
  imports Main
begin

section \<open>Python values and exceptions\<close>

text \<open>
  \<open>bytes\<close> objects are lists of 8-bit characters, \<open>str\<close> objects are lists of Unicode
  code points.  Charset names and MIME content types, which are ASCII tokens, are kept as
  plain strings.
\<close>

type_synonym bytes = "char list"
type_synonym str = "nat list"

definition str_of :: "string \<Rightarrow> str" where
  "str_of s = map of_char s"

datatype exn =
    AttributeError | IndexError | TypeError | ValueError | LookupError
  | UnicodeDecodeError | ImapError | RedisError | OtherError

text \<open>Sequencing of steps that may raise: the first exception ends the computation.\<close>

definition and_then :: "exn + 'a \<Rightarrow> ('a \<Rightarrow> exn + 'b) \<Rightarrow> exn + 'b" where
  "and_then m f = (case m of Inl e \<Rightarrow> Inl e | Inr x \<Rightarrow> f x)"

text \<open>A list comprehension \<open>[f x for x in xs]\<close> whose element expression may raise.\<close>

fun map_try :: "('a \<Rightarrow> exn + 'b) \<Rightarrow> 'a list \<Rightarrow> exn + 'b list" where
  "map_try f [] = Inr []"
| "map_try f (x # xs) =
     and_then (f x) (\<lambda>y. and_then (map_try f xs) (\<lambda>ys. Inr (y # ys)))"

text \<open>A list comprehension \<open>[x for x in xs if p x]\<close> whose condition may raise.\<close>

fun filter_try :: "('a \<Rightarrow> exn + bool) \<Rightarrow> 'a list \<Rightarrow> exn + 'a list" where
  "filter_try p [] = Inr []"
| "filter_try p (x # xs) =
     and_then (p x) (\<lambda>b. and_then (filter_try p xs) (\<lambda>ys. Inr (if b then x # ys else ys)))"

text \<open>\<open>xs[0]\<close> raises IndexError on an empty list.\<close>

definition item0 :: "'a list \<Rightarrow> exn + 'a" where
  "item0 xs = (case xs of [] \<Rightarrow> Inl IndexError | x # _ \<Rightarrow> Inr x)"

text \<open>\<open>max\<close> of an iterable raises ValueError when the iterable is empty.\<close>

definition py_max :: "int list \<Rightarrow> exn + int" where
  "py_max ns = (case ns of [] \<Rightarrow> Inl ValueError | n # r \<Rightarrow> Inr (fold max r n))"

text \<open>\<open>bytes.split()\<close> without argument: split at runs of ASCII whitespace, no empty tokens.\<close>

definition is_space :: "char \<Rightarrow> bool" where
  "is_space c = (let n = (of_char c :: nat) in (9 \<le> n \<and> n \<le> 13) \<or> n = 32)"

function bytes_split :: "bytes \<Rightarrow> bytes list" where
  "bytes_split [] = []"
| "bytes_split (c # cs) =
     (if is_space c then bytes_split cs
      else (c # takeWhile (\<lambda>x. \<not> is_space x) cs)
             # bytes_split (dropWhile (\<lambda>x. \<not> is_space x) cs))"
  by pat_completeness auto
termination
  by (relation "measure length") (auto simp: length_dropWhile_le less_Suc_eq_le)

text \<open>\<open>str.split(sep)\<close> with a one-character separator: empty pieces are kept.\<close>

fun str_split :: "nat \<Rightarrow> str \<Rightarrow> str list" where
  "str_split sep [] = [[]]"
| "str_split sep (c # cs) =
     (if c = sep then [] # str_split sep cs
      else (case str_split sep cs of [] \<Rightarrow> [[c]] | p # ps \<Rightarrow> (c # p) # ps))"

section \<open>The mailbox and its collaborators\<close>

text \<open>The two search expressions the module sends: \<open>'ALL'\<close> and \<open>f"UID {n}:*"\<close>.\<close>

datatype search_criteria = SearchAll | UidFrom int

text \<open>One element of \<open>message.walk()\<close>, with the accessors the module calls on it.\<close>

record part =
  get_filename :: "exn + str option"
  get_content_type :: "exn + string"
  get_content_charset :: "exn + string option"
  get_payload :: "exn + bytes option"

record message =
  header_From :: "str option"
  header_Subject :: "str option"
  walk :: "part list"

text \<open>\<open>decode_header\<close> yields pairs of a fragment (bytes or str) and its charset (or None).\<close>

datatype fragment = FBytes bytes | FStr str

text \<open>
  Everything the module reaches outside itself: the IMAP connection, chardet, the codecs
  behind \<open>bytes.decode\<close>, the builtin \<open>int\<close> on a str, the Unicode table behind \<open>\w\<close>, the
  email parser, BeautifulSoup, the criteria file, the regex engine and the Redis client.
  Each call either raises (\<open>Inl\<close>) or returns (\<open>Inr\<close>).
  \<open>uid_search c\<close> is the data list of \<open>imap_server.uid('search', None, c)\<close>;
  \<open>uid_fetch u\<close> is \<open>data[0][1]\<close> of \<open>imap_server.uid('fetch', u, '(RFC822)')\<close>.
\<close>

record env =
  uid_search :: "search_criteria \<Rightarrow> exn + bytes option list"
  uid_fetch :: "str \<Rightarrow> exn + bytes"
  chardet_encoding :: "bytes \<Rightarrow> string option"
  decode :: "string \<Rightarrow> bytes \<Rightarrow> exn + str"
  py_int :: "str \<Rightarrow> exn + int"
  word_char :: "nat \<Rightarrow> bool"
  message_from_string :: "str \<Rightarrow> exn + message"
  decode_header :: "str \<Rightarrow> exn + (fragment \<times> string option) list"
  soup_get_text :: "str \<Rightarrow> exn + str"
  read_json :: "string \<Rightarrow> exn + (str \<rightharpoonup> str)"
  re_search :: "str \<Rightarrow> str \<Rightarrow> exn + str option"
  hset_error :: "str \<Rightarrow> str option \<times> str \<Rightarrow> exn option"

text \<open>The value of \<open>self.uid\<close>: None until set, then an int or whatever the caller stores.\<close>

datatype pyval = PyNone | PyInt int | PyStr str

record mailbox =
  uid :: pyval

text \<open>\<open>int(v)\<close>.\<close>

definition to_int :: "env \<Rightarrow> pyval \<Rightarrow> exn + int" where
  "to_int env v = (case v of PyNone \<Rightarrow> Inl TypeError | PyInt n \<Rightarrow> Inr n | PyStr s \<Rightarrow> py_int env s)"

section \<open>Watermark tracker\<close>

definition initialize_uid_try :: "env \<Rightarrow> mailbox \<Rightarrow> int \<Rightarrow> exn + mailbox" where
  "initialize_uid_try env self uid_value =
     and_then (uid_search env SearchAll) (\<lambda>uids.
     and_then (item0 uids) (\<lambda>u0.
       case u0 of
         None \<Rightarrow> Inr self
       | Some b \<Rightarrow>
           if b = [] then Inr self
           else
             and_then (map_try (\<lambda>t. and_then (decode env ''utf-8'' t) (py_int env))
                         (bytes_split b)) (\<lambda>ns.
             and_then (py_max ns) (\<lambda>m.
             Inr (self\<lparr>uid := PyInt (m - 1 - uid_value)\<rparr>)))))"

text \<open>The \<open>except Exception\<close> clause logs and leaves the object as it was.\<close>

definition initialize_uid :: "env \<Rightarrow> mailbox \<Rightarrow> int \<Rightarrow> mailbox" where
  "initialize_uid env self uid_value =
     (case initialize_uid_try env self uid_value of Inl e \<Rightarrow> self | Inr self' \<Rightarrow> self')"

definition list_uids_try :: "env \<Rightarrow> mailbox \<Rightarrow> exn + str list" where
  "list_uids_try env self =
     and_then (to_int env (uid self)) (\<lambda>w.
     and_then (uid_search env (UidFrom (w + 1))) (\<lambda>uids.
     and_then (item0 uids) (\<lambda>u0.
     and_then (case u0 of None \<Rightarrow> Inl AttributeError | Some b \<Rightarrow> Inr (bytes_split b)) (\<lambda>toks.
     and_then (map_try (decode env ''utf-8'') toks) (\<lambda>us.
     filter_try (\<lambda>u. and_then (py_int env u) (\<lambda>n.
                     and_then (to_int env (uid self)) (\<lambda>w'. Inr (n > w')))) us)))))"

text \<open>
  The \<open>except Exception\<close> clause logs and falls off the end of the function: the call
  returns Python's None (\<open>None\<close> here), a list is \<open>Some\<close>.  No exception leaves the call.
\<close>

definition list_uids :: "env \<Rightarrow> mailbox \<Rightarrow> str list option" where
  "list_uids env self =
     (case list_uids_try env self of Inl e \<Rightarrow> None | Inr us \<Rightarrow> Some us)"

text \<open>Numeric order of two identifiers as \<open>int\<close> reads them.\<close>

definition uid_less :: "env \<Rightarrow> str \<Rightarrow> str \<Rightarrow> bool" where
  "uid_less env u v =
     (case py_int env u of Inl e \<Rightarrow> False
      | Inr m \<Rightarrow> (case py_int env v of Inl e \<Rightarrow> False | Inr n \<Rightarrow> m < n))"

section \<open>Business and routing resolver\<close>

text \<open>
  The character class \<open>[\w\.-]\<close>: a word character (ASCII letter, digit or underscore,
  or a code point beyond ASCII that the Unicode table classifies as one), a dot or a dash.
\<close>

definition ascii_word :: "nat \<Rightarrow> bool" where
  "ascii_word c = ((48 \<le> c \<and> c \<le> 57) \<or> (65 \<le> c \<and> c \<le> 90) \<or> c = 95 \<or> (97 \<le> c \<and> c \<le> 122))"

definition addr_char :: "env \<Rightarrow> nat \<Rightarrow> bool" where
  "addr_char env c = ((if c < 128 then ascii_word c else word_char env c) \<or> c = 46 \<or> c = 45)"

text \<open>
  A match of \<open>[\w\.-]+@[\w\.-]+\<close> that starts at the head of the text.  Both runs are
  greedy; \<open>@\<close> (64) is outside the class, so the first run is the whole run of class
  characters and must be followed by \<open>@\<close> at once.
\<close>

definition match_here :: "env \<Rightarrow> str \<Rightarrow> str option" where
  "match_here env s =
     (if takeWhile (addr_char env) s = [] then None
      else
        (case dropWhile (addr_char env) s of
           [] \<Rightarrow> None
         | c # t \<Rightarrow>
             if c = 64 \<and> takeWhile (addr_char env) t \<noteq> []
             then Some (takeWhile (addr_char env) s @ 64 # takeWhile (addr_char env) t)
             else None))"

text \<open>\<open>re.search\<close> with that pattern: the match at the leftmost position that has one.\<close>

fun email_search :: "env \<Rightarrow> str \<Rightarrow> str option" where
  "email_search env [] = None"
| "email_search env (c # cs) =
     (case match_here env (c # cs) of Some m \<Rightarrow> Some m | None \<Rightarrow> email_search env cs)"

text \<open>
  \<open>extract_business_\<close> of the source (a name cannot end in an underscore here).
\<close>

definition extract_business :: "env \<Rightarrow> str \<Rightarrow> str option" where
  "extract_business env email_adress =
     (let extracted_email =
            (case email_search env email_adress of Some m \<Rightarrow> m | None \<Rightarrow> email_adress);
          email_parts = str_split 64 extracted_email
      in if length email_parts = 2 then
           (let domain_parts = str_split 46 (email_parts ! 1)
            in if length domain_parts > 1 then Some (domain_parts ! 0) else None)
         else None)"

text \<open>The arguments \<open>invoice_cls\<close> is called with; the Invoice keeps them under these names.\<close>

record invoice =
  inv_uid :: str
  inv_adress :: "str option"
  inv_message :: "message option"
  inv_business :: "str option"
  inv_subject :: "str option"
  inv_text :: "str option"
  inv_pdf :: "bytes option"

text \<open>
  The value of \<open>a and b\<close> in \<open>should_process\<close>: False when the key is unknown, otherwise
  what \<open>re.search\<close> returned, None or a match object (here its matched text).
\<close>

datatype verdict = PyFalse | NoMatch | Match str

definition truthy :: "verdict \<Rightarrow> bool" where
  "truthy v = (case v of Match g \<Rightarrow> True | _ \<Rightarrow> False)"

text \<open>
  \<open>should_process\<close> has no \<open>try\<close>: what \<open>read_json\<close> or \<open>re.search\<close> raise reaches the
  caller.  \<open>re.search\<close> on a subject that is None raises TypeError.
\<close>

definition should_process :: "env \<Rightarrow> string \<Rightarrow> invoice \<Rightarrow> exn + verdict" where
  "should_process env crit_path invc =
     and_then (read_json env crit_path) (\<lambda>criteria.
       case inv_business invc of
         None \<Rightarrow> Inr PyFalse
       | Some b \<Rightarrow>
           (case criteria b of
              None \<Rightarrow> Inr PyFalse
            | Some pattern \<Rightarrow>
                (case inv_subject invc of
                   None \<Rightarrow> Inl TypeError
                 | Some s \<Rightarrow>
                     and_then (re_search env pattern s) (\<lambda>m.
                       Inr (case m of None \<Rightarrow> NoMatch | Some g \<Rightarrow> Match g)))))"

section \<open>Message decoder\<close>

text \<open>\<open>p in s\<close> on strings: \<open>p\<close> occurs in \<open>s\<close> as a contiguous piece.\<close>

fun py_in :: "'a list \<Rightarrow> 'a list \<Rightarrow> bool" where
  "py_in p [] = (p = [])"
| "py_in p (c # cs) = (take (length p) (c # cs) = p \<or> py_in p cs)"

text \<open>\<open>str(x)\<close> of a str or None, and \<open>lower()\<close> on the ASCII letters.\<close>

definition py_str :: "str option \<Rightarrow> str" where
  "py_str v = (case v of None \<Rightarrow> str_of ''None'' | Some s \<Rightarrow> s)"

definition str_lower :: "str \<Rightarrow> str" where
  "str_lower s = map (\<lambda>c. if 65 \<le> c \<and> c \<le> 90 then c + 32 else c) s"

definition has_pdf_name :: "part \<Rightarrow> exn + bool" where
  "has_pdf_name p =
     and_then (get_filename p) (\<lambda>f. Inr (py_in (str_of ''.pdf'') (str_lower (py_str f))))"

definition extract_all_pdfs_try :: "part list \<Rightarrow> exn + bytes option list" where
  "extract_all_pdfs_try parts =
     and_then (filter_try has_pdf_name parts) (\<lambda>parts'. map_try get_payload parts')"

text \<open>The \<open>except\<close> clause logs and falls off the end: None instead of a list.\<close>

definition extract_all_pdfs :: "part list \<Rightarrow> bytes option list option" where
  "extract_all_pdfs parts =
     (case extract_all_pdfs_try parts of Inl e \<Rightarrow> None | Inr pdfs \<Rightarrow> Some pdfs)"

text \<open>\<open>charset or 'utf-8'\<close>.\<close>

definition or_utf8 :: "string option \<Rightarrow> string" where
  "or_utf8 charset = (case charset of None \<Rightarrow> ''utf-8'' | Some c \<Rightarrow> if c = [] then ''utf-8'' else c)"

definition is_text_part :: "part \<Rightarrow> exn + bool" where
  "is_text_part p =
     and_then (get_content_type p) (\<lambda>ct.
       if ct = ''text/plain'' then Inr True
       else and_then (get_content_type p) (\<lambda>ct'. Inr (ct' = ''text/html'')))"

definition part_text :: "env \<Rightarrow> part \<Rightarrow> exn + str" where
  "part_text env p =
     and_then (get_content_charset p) (\<lambda>charset.
     and_then (get_payload p) (\<lambda>payload.
       case payload of
         None \<Rightarrow> Inl AttributeError
       | Some b \<Rightarrow> decode env (or_utf8 charset) b))"

definition extract_text_try :: "env \<Rightarrow> part list \<Rightarrow> exn + str" where
  "extract_text_try env parts =
     and_then (filter_try is_text_part parts) (\<lambda>parts'.
     and_then (map_try (part_text env) parts') (\<lambda>texts.
     soup_get_text env (concat texts)))"

text \<open>\<open>extract_text_\<close> of the source; its \<open>except\<close> clause gives None.\<close>

definition extract_text :: "env \<Rightarrow> part list \<Rightarrow> str option" where
  "extract_text env parts =
     (case extract_text_try env parts of Inl e \<Rightarrow> None | Inr t \<Rightarrow> Some t)"

text \<open>
  The subject expression shared by \<open>configure_uid_specific_data\<close> and
  \<open>set_metadata_redis\<close>:
  \<^verbatim>\<open>''.join([fragment.decode(charset or 'utf-8') if isinstance(fragment, bytes) else fragment
            for fragment, charset in decoded_fragments])\<close>
  Inside the comprehension \<open>charset\<close> is the fragment's own charset; the charset chardet
  detected for the whole message, bound to the same name outside, is not visible there.
\<close>

definition decode_fragment :: "env \<Rightarrow> fragment \<times> string option \<Rightarrow> exn + str" where
  "decode_fragment env fc =
     (case fc of
        (FBytes b, charset) \<Rightarrow> decode env (or_utf8 charset) b
      | (FStr s, charset) \<Rightarrow> Inr s)"

definition subject_of_fragments :: "env \<Rightarrow> (fragment \<times> string option) list \<Rightarrow> exn + str" where
  "subject_of_fragments env decoded_fragments =
     and_then (map_try (decode_fragment env) decoded_fragments) (\<lambda>ss. Inr (concat ss))"

text \<open>
  The subject decoding as the specification words it: a byte fragment is decoded with its
  own charset, else with the charset detected for the message, else with UTF-8.
\<close>

definition spec_decode_fragment :: "env \<Rightarrow> string option \<Rightarrow> fragment \<times> string option \<Rightarrow> exn + str" where
  "spec_decode_fragment env detected fc =
     (case fc of
        (FBytes b, charset) \<Rightarrow>
          decode env (case charset of Some c \<Rightarrow> c | None \<Rightarrow> or_utf8 detected) b
      | (FStr s, charset) \<Rightarrow> Inr s)"

definition spec_subject_of_fragments ::
    "env \<Rightarrow> string option \<Rightarrow> (fragment \<times> string option) list \<Rightarrow> exn + str" where
  "spec_subject_of_fragments env detected decoded_fragments =
     and_then (map_try (spec_decode_fragment env detected) decoded_fragments)
       (\<lambda>ss. Inr (concat ss))"

text \<open>The first lines of both per-identifier bodies: fetch, detect, decode, parse.\<close>

definition fetch_message :: "env \<Rightarrow> str \<Rightarrow> exn + message" where
  "fetch_message env u =
     and_then (uid_fetch env u) (\<lambda>raw.
     and_then (case chardet_encoding env raw of
                 None \<Rightarrow> Inl TypeError
               | Some charset \<Rightarrow> decode env charset raw) (\<lambda>raw_data.
     message_from_string env raw_data))"

text \<open>\<open>extract_business_(message['From'])\<close>: \<open>re.search\<close> on None raises TypeError.\<close>

definition business_of :: "env \<Rightarrow> message \<Rightarrow> exn + str option" where
  "business_of env msg =
     (case header_From msg of None \<Rightarrow> Inl TypeError | Some a \<Rightarrow> Inr (extract_business env a))"

text \<open>\<open>decode_header(message['Subject'])\<close> and the join; a missing header raises.\<close>

definition subject_of :: "env \<Rightarrow> message \<Rightarrow> exn + str" where
  "subject_of env msg =
     and_then (case header_Subject msg of None \<Rightarrow> Inl TypeError | Some h \<Rightarrow> decode_header env h)
       (subject_of_fragments env)"

type_synonym uid_data =
  "message option \<times> str option \<times> str option \<times> str option \<times> str option \<times> bytes option list option"

definition configure_uid_specific_data_try :: "env \<Rightarrow> str \<Rightarrow> exn + uid_data" where
  "configure_uid_specific_data_try env u =
     and_then (fetch_message env u) (\<lambda>msg.
     and_then (business_of env msg) (\<lambda>business.
     and_then (subject_of env msg) (\<lambda>subject.
       Inr (Some msg, header_From msg, business, Some subject,
            extract_text env (walk msg), extract_all_pdfs (walk msg)))))"

text \<open>The \<open>except\<close> clause returns \<open>None, None, None, None, None, []\<close>.\<close>

definition configure_uid_specific_data :: "env \<Rightarrow> str \<Rightarrow> uid_data" where
  "configure_uid_specific_data env u =
     (case configure_uid_specific_data_try env u of
        Inl e \<Rightarrow> (None, None, None, None, None, Some [])
      | Inr t \<Rightarrow> t)"

section \<open>Sync pipeline\<close>

text \<open>
  The generator's yields, in order.  \<open>invoice_cls\<close> and \<open>idoc_cls\<close> are the caller's
  constructors; a yielded pair is shown by the arguments they are called with.
\<close>

type_synonym idoc = "string \<times> string \<times> string"

fun create_invoice_and_idoc ::
    "env \<Rightarrow> str list \<Rightarrow> string \<Rightarrow> string \<Rightarrow> string \<Rightarrow> (invoice \<times> idoc) list" where
  "create_invoice_and_idoc env [] startseg_path dynseg_path endseg_path = []"
| "create_invoice_and_idoc env (u # uids) startseg_path dynseg_path endseg_path =
     (case configure_uid_specific_data env u of
        (message, adress, business, subject, text, pdfs) \<Rightarrow>
          (case pdfs of
             None \<Rightarrow>
               [(\<lparr>inv_uid = u, inv_adress = adress, inv_message = message,
                  inv_business = business, inv_subject = subject, inv_text = text,
                  inv_pdf = None\<rparr>, (startseg_path, dynseg_path, endseg_path))]
           | Some [] \<Rightarrow>
               [(\<lparr>inv_uid = u, inv_adress = adress, inv_message = message,
                  inv_business = business, inv_subject = subject, inv_text = text,
                  inv_pdf = None\<rparr>, (startseg_path, dynseg_path, endseg_path))]
           | Some (p # ps) \<Rightarrow>
               map (\<lambda>pdf.
                     (\<lparr>inv_uid = u, inv_adress = adress, inv_message = message,
                       inv_business = business, inv_subject = subject, inv_text = text,
                       inv_pdf = pdf\<rparr>, (startseg_path, dynseg_path, endseg_path)))
                   (p # ps)))
     @ create_invoice_and_idoc env uids startseg_path dynseg_path endseg_path"

section \<open>Metadata cache writer\<close>

text \<open>The Redis hashes written so far: key to the fields \<open>business\<close> and \<open>subject\<close>.\<close>

type_synonym redis = "str \<rightharpoonup> str option \<times> str"

text \<open>One turn of the loop body; \<open>hset_error\<close> is what \<open>rclient.hset\<close> raises, if anything.\<close>

definition metadata_step :: "env \<Rightarrow> redis \<Rightarrow> str \<Rightarrow> exn + redis" where
  "metadata_step env rclient u =
     and_then (fetch_message env u) (\<lambda>msg.
     and_then (business_of env msg) (\<lambda>business.
     and_then (subject_of env msg) (\<lambda>subject.
       case hset_error env u (business, subject) of
         Some e \<Rightarrow> Inl e
       | None \<Rightarrow> Inr (rclient(u \<mapsto> (business, subject))))))"

text \<open>
  The \<open>for\<close> loop stands inside the \<open>try\<close>: the first exception leaves the loop with the
  store as the earlier turns left it.
\<close>

fun metadata_loop :: "env \<Rightarrow> redis \<Rightarrow> str list \<Rightarrow> exn option \<times> redis" where
  "metadata_loop env rclient [] = (None, rclient)"
| "metadata_loop env rclient (u # uids) =
     (case metadata_step env rclient u of
        Inl e \<Rightarrow> (Some e, rclient)
      | Inr rclient' \<Rightarrow> metadata_loop env rclient' uids)"

text \<open>The \<open>except\<close> clause logs the exception; the store is the call's effect.\<close>

definition set_metadata_redis :: "env \<Rightarrow> redis \<Rightarrow> str list \<Rightarrow> redis" where
  "set_metadata_redis env rclient uids = snd (metadata_loop env rclient uids)"

section \<open>A reference environment for evaluation\<close>

text \<open>\<open>int\<close> on a plain ASCII decimal numeral, the form of an IMAP identifier.\<close>

definition dec_int :: "str \<Rightarrow> exn + int" where
  "dec_int s =
     (if s \<noteq> [] \<and> list_all (\<lambda>c. 48 \<le> c \<and> c \<le> 57) s
      then Inr (foldl (\<lambda>a c. 10 * a + int (c - 48)) 0 s)
      else Inl ValueError)"

text \<open>The codecs \<open>ascii\<close>, \<open>iso-8859-1\<close> and \<open>utf-8\<close>.\<close>

definition cont :: "nat \<Rightarrow> bool" where
  "cont b = (128 \<le> b \<and> b < 192)"

definition emit :: "nat \<Rightarrow> exn + nat list \<Rightarrow> exn + nat list" where
  "emit c r = and_then r (\<lambda>cs. Inr (c # cs))"

fun utf8_points :: "nat list \<Rightarrow> exn + nat list" where
  "utf8_points [] = Inr []"
| "utf8_points (a # bs) =
     (if a < 128 then emit a (utf8_points bs)
      else if 194 \<le> a \<and> a < 224 then
        (case bs of
           b # r \<Rightarrow>
             if cont b then emit ((a - 192) * 64 + (b - 128)) (utf8_points r)
             else Inl UnicodeDecodeError
         | _ \<Rightarrow> Inl UnicodeDecodeError)
      else if 224 \<le> a \<and> a < 240 then
        (case bs of
           b # c # r \<Rightarrow>
             if cont b \<and> cont c \<and> (if a = 224 then 160 \<le> b else True)
                \<and> (if a = 237 then b < 160 else True)
             then emit ((a - 224) * 4096 + (b - 128) * 64 + (c - 128)) (utf8_points r)
             else Inl UnicodeDecodeError
         | _ \<Rightarrow> Inl UnicodeDecodeError)
      else if 240 \<le> a \<and> a < 245 then
        (case bs of
           b # c # d # r \<Rightarrow>
             if cont b \<and> cont c \<and> cont d \<and> (if a = 240 then 144 \<le> b else True)
                \<and> (if a = 244 then b < 144 else True)
             then emit ((a - 240) * 262144 + (b - 128) * 4096 + (c - 128) * 64 + (d - 128))
                    (utf8_points r)
             else Inl UnicodeDecodeError
         | _ \<Rightarrow> Inl UnicodeDecodeError)
      else Inl UnicodeDecodeError)"

definition py_decode :: "string \<Rightarrow> bytes \<Rightarrow> exn + str" where
  "py_decode cs b =
     (if cs = ''ascii'' \<or> cs = ''us-ascii'' then
        (if list_all (\<lambda>c. (of_char c :: nat) < 128) b then Inr (map of_char b)
         else Inl UnicodeDecodeError)
      else if cs = ''iso-8859-1'' \<or> cs = ''latin-1'' then Inr (map of_char b)
      else if cs = ''utf-8'' \<or> cs = ''utf8'' then utf8_points (map of_char b)
      else Inl LookupError)"

text \<open>An environment in which the server is unreachable and every file is missing.\<close>

definition base_env :: env where
  "base_env =
     \<lparr> uid_search = (\<lambda>c. Inl ImapError),
       uid_fetch = (\<lambda>u. Inl ImapError),
       chardet_encoding = (\<lambda>b. if b = [] then None else Some ''utf-8''),
       decode = py_decode,
       py_int = dec_int,
       word_char = (\<lambda>c. False),
       message_from_string = (\<lambda>s. Inl OtherError),
       decode_header = (\<lambda>h. Inr [(FStr h, None)]),
       soup_get_text = (\<lambda>s. Inr s),
       read_json = (\<lambda>p. Inl OtherError),
       re_search = (\<lambda>p s. Inl OtherError),
       hset_error = (\<lambda>k v. if fst v = None then Some RedisError else None) \<rparr>"

text \<open>Servers answering every search with a fixed line, and one with an empty mailbox.\<close>

definition three_messages :: env where
  "three_messages = base_env\<lparr>uid_search := (\<lambda>c. Inr [Some ''3 10 7''])\<rparr>"

definition empty_mailbox :: env where
  "empty_mailbox = base_env\<lparr>uid_search := (\<lambda>c. Inr [Some []])\<rparr>"

definition unordered_server :: env where
  "unordered_server = base_env\<lparr>uid_search := (\<lambda>c. Inr [Some ''9 4 4''])\<rparr>"

text \<open>Sample message parts and messages.\<close>

definition text_part :: "bytes \<Rightarrow> part" where
  "text_part body =
     \<lparr>get_filename = Inr None, get_content_type = Inr ''text/plain'',
      get_content_charset = Inr (Some ''utf-8''), get_payload = Inr (Some body)\<rparr>"

definition attachment :: "string \<Rightarrow> bytes \<Rightarrow> part" where
  "attachment name payload =
     \<lparr>get_filename = Inr (Some (str_of name)), get_content_type = Inr ''application/octet-stream'',
      get_content_charset = Inr None, get_payload = Inr (Some payload)\<rparr>"

definition broken_part :: part where
  "broken_part =
     \<lparr>get_filename = Inl LookupError, get_content_type = Inr ''application/octet-stream'',
      get_content_charset = Inr None, get_payload = Inr None\<rparr>"

definition invoice_mail :: message where
  "invoice_mail =
     \<lparr>header_From = Some (str_of ''Billing <invoices@billing.acme.com>''),
      header_Subject = Some (str_of ''Invoice 42''),
      walk = [text_part ''see attachments'', attachment ''a.pdf'' ''%PDF-A'',
              attachment ''b.PDF'' ''%PDF-B'']\<rparr>"

definition plain_mail :: message where
  "plain_mail =
     \<lparr>header_From = Some (str_of ''bob@shop.example.org''),
      header_Subject = Some (str_of ''Hello''),
      walk = [text_part ''hi'']\<rparr>"

definition broken_mail :: message where
  "broken_mail =
     \<lparr>header_From = Some (str_of ''eve@corp.example.net''),
      header_Subject = Some (str_of ''Report''),
      walk = [text_part ''hi'', broken_part]\<rparr>"

text \<open>
  A server holding the messages 1, 2 and 4 and, under 5, a byte that is not UTF-8 (any
  other fetch fails), with a parser that knows the three messages.
\<close>

definition demo_server :: env where
  "demo_server =
     base_env
       \<lparr>uid_fetch := (\<lambda>u. if u = str_of ''1'' then Inr ''mail-1''
                          else if u = str_of ''2'' then Inr ''mail-2''
                          else if u = str_of ''4'' then Inr ''mail-4''
                          else if u = str_of ''5'' then Inr [CHR 0xFF]
                          else Inl ImapError),
        message_from_string := (\<lambda>s. if s = str_of ''mail-1'' then Inr invoice_mail
                          else if s = str_of ''mail-2'' then Inr plain_mail
                          else if s = str_of ''mail-4'' then Inr broken_mail
                          else Inl OtherError)\<rparr>"

text \<open>
  A criteria file with one business, and a regex engine for patterns without
  metacharacters (a plain substring search).
\<close>

definition routing_env :: env where
  "routing_env =
     base_env
       \<lparr>read_json := (\<lambda>p. Inr [str_of ''billing'' \<mapsto> str_of ''Invoice'']),
        re_search := (\<lambda>pattern s. Inr (if py_in pattern s then Some pattern else None))\<rparr>"

definition routed_invoice :: "string \<Rightarrow> invoice" where
  "routed_invoice biz =
     \<lparr>inv_uid = str_of ''1'', inv_adress = Some (str_of ''a@b.c''), inv_message = None,
      inv_business = Some (str_of biz), inv_subject = Some (str_of ''Invoice 42''),
      inv_text = None, inv_pdf = None\<rparr>"

section \<open>Sequencing lemmas\<close>

lemma and_then_Inr_iff:
  "and_then m f = Inr y \<longleftrightarrow> (\<exists>x. m = Inr x \<and> f x = Inr y)"
  by (cases m) (simp_all add: and_then_def)

lemma filter_try_Inr:
  "filter_try p xs = Inr ys \<Longrightarrow>
     ys = filter (\<lambda>x. p x = Inr True) xs \<and> list_all (\<lambda>x. \<exists>b. p x = Inr b) xs"
proof (induction xs arbitrary: ys)
  case Nil
  then show ?case by simp
next
  case (Cons x xs)
  then show ?case by (auto simp: and_then_Inr_iff)
qed

lemma py_max_nonempty: "ns \<noteq> [] \<Longrightarrow> py_max ns = Inr (Max (set ns))"
  by (cases ns) (simp_all add: py_max_def Max.set_eq_fold [symmetric])

lemma map_try_Nil_iff: "map_try f xs = Inr [] \<longleftrightarrow> xs = []"
  by (cases xs) (auto simp: and_then_Inr_iff)

lemma and_then_Inr_id: "and_then m (\<lambda>x. Inr x) = m"
  by (cases m) (simp_all add: and_then_def)

lemma filter_try_total:
  "list_all (\<lambda>x. \<exists>b. p x = Inr b) xs \<Longrightarrow> filter_try p xs = Inr (filter (\<lambda>x. p x = Inr True) xs)"
  by (induction xs) (auto simp: and_then_def)

lemma map_try_total:
  "list_all (\<lambda>x. \<exists>y. f x = Inr y) xs \<Longrightarrow> \<exists>ys. map_try f xs = Inr ys \<and> map Inr ys = map f xs"
  by (induction xs) (auto simp: and_then_def)

lemma map_try_append:
  "map_try f (xs @ ys) =
     and_then (map_try f xs) (\<lambda>as. and_then (map_try f ys) (\<lambda>bs. Inr (as @ bs)))"
  by (induction xs) (auto simp: and_then_def split: sum.splits)

section \<open>Watermark tracker: results\<close>

text \<open>
  C3.  \<open>initialize_uid offset\<close>: when the search for all messages answers with a non-empty
  line of identifiers that read as the integers \<open>ns\<close>, the watermark becomes
  \<open>max ns - 1 - offset\<close>; when the answer is empty (no message), the mailbox object, and
  with it an unset watermark, is left as it was.
\<close>

theorem initialize_uid_watermark:
  "(uid_search env SearchAll = Inr (Some b # rest) \<longrightarrow>
      map_try (\<lambda>t. and_then (decode env ''utf-8'' t) (py_int env)) (bytes_split b) = Inr ns \<longrightarrow>
      ns \<noteq> [] \<longrightarrow>
      uid (initialize_uid env self offset) = PyInt (Max (set ns) - 1 - offset))
   \<and> (uid_search env SearchAll = Inr (d # rest) \<longrightarrow> d = None \<or> d = Some [] \<longrightarrow>
      initialize_uid env self offset = self)"
proof (intro conjI impI)
  assume s: "uid_search env SearchAll = Inr (Some b # rest)"
    and m: "map_try (\<lambda>t. and_then (decode env ''utf-8'' t) (py_int env)) (bytes_split b) = Inr ns"
    and n: "ns \<noteq> []"
  from m n have "bytes_split b \<noteq> []" by (auto simp: map_try_Nil_iff)
  then have b: "b \<noteq> []" by auto
  show "uid (initialize_uid env self offset) = PyInt (Max (set ns) - 1 - offset)"
    using s m b py_max_nonempty [OF n]
    by (simp add: initialize_uid_def initialize_uid_try_def and_then_def item0_def)
next
  assume "uid_search env SearchAll = Inr (d # rest)" and "d = None \<or> d = Some []"
  then show "initialize_uid env self offset = self"
    by (auto simp: initialize_uid_def initialize_uid_try_def and_then_def item0_def)
qed

theorem initialize_uid_watermark_witness:
  "uid (initialize_uid three_messages \<lparr>uid = PyNone\<rparr> 2) = PyInt 7
   \<and> initialize_uid empty_mailbox \<lparr>uid = PyNone\<rparr> 2 = \<lparr>uid = PyNone\<rparr>"
proof -
  have s: "uid_search three_messages SearchAll = Inr (Some ''3 10 7'' # [])"
    by (simp add: three_messages_def base_env_def)
  have m: "map_try (\<lambda>t. and_then (decode three_messages ''utf-8'' t) (py_int three_messages))
             (bytes_split ''3 10 7'') = Inr [3, 10, 7]"
    by (simp add: three_messages_def base_env_def and_then_def is_space_def py_decode_def
        emit_def dec_int_def)
  have e: "uid_search empty_mailbox SearchAll = Inr (Some [] # [])"
    by (simp add: empty_mailbox_def base_env_def)
  from initialize_uid_watermark [of three_messages "''3 10 7''" "[]" "[3, 10, 7]"
        "\<lparr>uid = PyNone\<rparr>" 2] s m
  have "uid (initialize_uid three_messages \<lparr>uid = PyNone\<rparr> 2) = PyInt 7" by simp
  moreover from initialize_uid_watermark [of empty_mailbox _ "[]" _ "\<lparr>uid = PyNone\<rparr>" 2 "Some []"] e
  have "initialize_uid empty_mailbox \<lparr>uid = PyNone\<rparr> 2 = \<lparr>uid = PyNone\<rparr>" by simp
  ultimately show ?thesis by simp
qed

text \<open>
  C2, as the code has it.  A call of \<open>list_uids\<close> that returns a list returns the
  identifiers of the server's answer that read as integers strictly above the watermark,
  in the server's order: every returned identifier is strictly greater than the watermark,
  and the list is strictly ascending whenever the server's answer is.
\<close>

theorem list_uids_above_watermark:
  assumes "list_uids env self = Some us"
  shows "\<exists>w b rest ts. to_int env (uid self) = Inr w
          \<and> uid_search env (UidFrom (w + 1)) = Inr (Some b # rest)
          \<and> map_try (decode env ''utf-8'') (bytes_split b) = Inr ts
          \<and> us = filter (\<lambda>u. \<exists>n. py_int env u = Inr n \<and> w < n) ts
          \<and> (\<forall>u\<in>set us. \<exists>n. py_int env u = Inr n \<and> w < n)
          \<and> (sorted_wrt (uid_less env) ts \<longrightarrow> sorted_wrt (uid_less env) us)"
proof -
  from assms have "list_uids_try env self = Inr us"
    by (auto simp: list_uids_def split: sum.splits)
  then obtain w uids u0 toks ts where
      w: "to_int env (uid self) = Inr w"
    and s: "uid_search env (UidFrom (w + 1)) = Inr uids"
    and i: "item0 uids = Inr u0"
    and t: "(case u0 of None \<Rightarrow> Inl AttributeError | Some b \<Rightarrow> Inr (bytes_split b)) = Inr toks"
    and d: "map_try (decode env ''utf-8'') toks = Inr ts"
    and f: "filter_try (\<lambda>u. and_then (py_int env u) (\<lambda>n.
                     and_then (to_int env (uid self)) (\<lambda>w'. Inr (n > w')))) ts = Inr us"
    unfolding list_uids_try_def and_then_Inr_iff by (elim exE conjE)
  from i obtain rest where uids: "uids = u0 # rest"
    by (cases uids) (auto simp: item0_def)
  from t obtain b where u0: "u0 = Some b" and toks: "toks = bytes_split b"
    by (cases u0) auto
  have p: "(and_then (py_int env u) (\<lambda>n. and_then (to_int env (uid self)) (\<lambda>w'. Inr (n > w')))
              = Inr True)
        \<longleftrightarrow> (\<exists>n. py_int env u = Inr n \<and> w < n)" for u
    using w by (auto simp: and_then_Inr_iff)
  from filter_try_Inr [OF f] have us: "us = filter (\<lambda>u. \<exists>n. py_int env u = Inr n \<and> w < n) ts"
    by (simp add: p)
  have "sorted_wrt (uid_less env) us" if "sorted_wrt (uid_less env) ts"
    using that unfolding us by (rule sorted_wrt_filter)
  then show ?thesis
    using w s d us uids u0 toks by auto
qed

theorem list_uids_above_watermark_witness:
  "list_uids three_messages \<lparr>uid = PyInt 5\<rparr> = Some [str_of ''10'', str_of ''7'']
   \<and> list_all (\<lambda>u. \<exists>n. py_int three_messages u = Inr n \<and> 5 < n)
         [str_of ''10'', str_of ''7'']"
proof -
  have h: "list_uids three_messages \<lparr>uid = PyInt 5\<rparr> = Some [str_of ''10'', str_of ''7'']"
    by (simp add: list_uids_def list_uids_try_def and_then_def to_int_def item0_def
        three_messages_def base_env_def is_space_def py_decode_def emit_def dec_int_def
        str_of_def)
  from list_uids_above_watermark [OF h]
  have "list_all (\<lambda>u. \<exists>n. py_int three_messages u = Inr n \<and> 5 < n)
          [str_of ''10'', str_of ''7'']"
    by (auto simp: to_int_def)
  with h show ?thesis by simp
qed

text \<open>
  The claim as written fails: the list is neither sorted nor free of duplicates when the
  server's answer is not.
\<close>

theorem list_uids_sorted_counterexample:
  "list_uids unordered_server \<lparr>uid = PyInt 1\<rparr> = Some [str_of ''9'', str_of ''4'', str_of ''4'']
   \<and> \<not> sorted_wrt (uid_less unordered_server) [str_of ''9'', str_of ''4'', str_of ''4'']
   \<and> \<not> distinct [str_of ''9'', str_of ''4'', str_of ''4'']"
  by (simp add: list_uids_def list_uids_try_def and_then_def to_int_def item0_def
      unordered_server_def base_env_def is_space_def py_decode_def emit_def dec_int_def
      str_of_def uid_less_def)

text \<open>
  C6.  With the watermark never set, \<open>int(self.uid)\<close> raises TypeError inside the
  \<open>try\<close>; the call then returns None, which is not the empty list.
\<close>

theorem list_uids_failure_returns_None:
  "list_uids_try three_messages \<lparr>uid = PyNone\<rparr> = Inl TypeError
   \<and> list_uids three_messages \<lparr>uid = PyNone\<rparr> = None
   \<and> list_uids three_messages \<lparr>uid = PyNone\<rparr> \<noteq> Some []"
  by (simp add: list_uids_def list_uids_try_def and_then_def to_int_def)

section \<open>Business and routing resolver: results\<close>

lemma str_split_not_Nil: "str_split sep s \<noteq> []"
  by (induction s) (auto split: list.splits)

lemma length_str_split:
  "length (str_split sep s) = Suc (length (filter (\<lambda>c. c = sep) s))"
  by (induction s) (auto simp: str_split_not_Nil split: list.splits)

lemma str_split_no_sep: "sep \<notin> set s \<Longrightarrow> str_split sep s = [s]"
  by (induction s) auto

lemma str_split_at_first:
  "sep \<notin> set l \<Longrightarrow> str_split sep (l @ sep # d) = l # str_split sep d"
  by (induction l) auto

lemma hd_str_split: "hd (str_split sep s) = takeWhile (\<lambda>c. c \<noteq> sep) s"
  by (induction s) (auto simp: str_split_not_Nil split: list.splits)

lemma str_split_many: "1 < length (str_split sep s) \<longleftrightarrow> sep \<in> set s"
  by (auto simp: length_str_split filter_empty_conv)

lemma str_split_one: "length (str_split sep s) = 1 \<longleftrightarrow> sep \<notin> set s"
  using str_split_many [of sep s] str_split_not_Nil [of sep s]
  by (cases "str_split sep s") auto

lemma str_split_two:
  "length (str_split sep s) = 2 \<longleftrightarrow> (\<exists>l d. s = l @ sep # d \<and> sep \<notin> set l \<and> sep \<notin> set d)"
proof
  assume two: "length (str_split sep s) = 2"
  then have "sep \<in> set s"
    using str_split_many [of sep s] by simp
  then obtain l d where s: "s = l @ sep # d" and l: "sep \<notin> set l"
    by (auto dest: split_list_first)
  from two have "length (str_split sep d) = 1"
    by (simp add: s str_split_at_first [OF l])
  then have "sep \<notin> set d"
    using str_split_one [of sep d] by simp
  with s l show "\<exists>l d. s = l @ sep # d \<and> sep \<notin> set l \<and> sep \<notin> set d" by blast
next
  assume "\<exists>l d. s = l @ sep # d \<and> sep \<notin> set l \<and> sep \<notin> set d"
  then show "length (str_split sep s) = 2"
    by (auto simp: str_split_at_first str_split_no_sep)
qed


lemma business_of_address:
  "(let email_parts = str_split 64 e
    in if length email_parts = 2 then
         (let domain_parts = str_split 46 (email_parts ! 1)
          in if length domain_parts > 1 then Some (domain_parts ! 0) else None)
       else None) = Some b
   \<longleftrightarrow> (\<exists>l d. e = l @ 64 # d \<and> 64 \<notin> set l \<and> 64 \<notin> set d \<and> 46 \<in> set d
          \<and> b = takeWhile (\<lambda>c. c \<noteq> 46) d)"
  (is "?lhs \<longleftrightarrow> ?rhs")
proof
  assume lhs: ?lhs
  then have two: "length (str_split 64 e) = 2"
    by (auto simp: Let_def split: if_splits)
  then obtain l d where e: "e = l @ 64 # d" and l: "64 \<notin> set l" and d: "64 \<notin> set d"
    unfolding str_split_two by blast
  have parts: "str_split 64 e = [l, d]"
    by (simp add: e str_split_at_first [OF l] str_split_no_sep [OF d])
  from lhs have many: "1 < length (str_split 46 d)" and b: "b = str_split 46 d ! 0"
    by (auto simp: parts Let_def split: if_splits)
  from many have dot: "46 \<in> set d" using str_split_many [of 46 d] by simp
  from b have "b = hd (str_split 46 d)"
    by (simp add: hd_conv_nth str_split_not_Nil)
  then have "b = takeWhile (\<lambda>c. c \<noteq> 46) d" by (simp add: hd_str_split)
  with e l d dot show ?rhs by blast
next
  assume ?rhs
  then obtain l d where e: "e = l @ 64 # d" and l: "64 \<notin> set l" and d: "64 \<notin> set d"
    and dot: "46 \<in> set d" and b: "b = takeWhile (\<lambda>c. c \<noteq> 46) d" by blast
  have parts: "str_split 64 e = [l, d]"
    by (simp add: e str_split_at_first [OF l] str_split_no_sep [OF d])
  from dot have many: "1 < length (str_split 46 d)" using str_split_many [of 46 d] by simp
  have "str_split 46 d ! 0 = hd (str_split 46 d)"
    by (simp add: hd_conv_nth str_split_not_Nil)
  then show ?lhs
    using many b by (simp add: parts Let_def hd_str_split)
qed


lemma match_here_Some:
  assumes "match_here env s = Some m"
  shows "\<exists>l d post. s = m @ post \<and> m = l @ 64 # d \<and> l \<noteq> [] \<and> d \<noteq> []
           \<and> list_all (addr_char env) l \<and> list_all (addr_char env) d"
proof -
  let ?P = "addr_char env"
  from assms obtain t where l: "takeWhile ?P s \<noteq> []" and r: "dropWhile ?P s = 64 # t"
    and d: "takeWhile ?P t \<noteq> []" and m: "m = takeWhile ?P s @ 64 # takeWhile ?P t"
    by (auto simp: match_here_def split: if_splits list.splits)
  have "s = takeWhile ?P s @ dropWhile ?P s" by simp
  also have "\<dots> = takeWhile ?P s @ 64 # (takeWhile ?P t @ dropWhile ?P t)" by (simp add: r)
  finally have "s = m @ dropWhile ?P t" by (simp add: m)
  moreover have "list_all ?P (takeWhile ?P s)" "list_all ?P (takeWhile ?P t)"
    by (auto simp: list_all_iff dest: set_takeWhileD)
  ultimately show ?thesis using l d m by blast
qed

lemma email_search_Some:
  "email_search env s = Some m \<Longrightarrow>
     \<exists>k\<le>length s. match_here env (drop k s) = Some m \<and> (\<forall>j<k. match_here env (drop j s) = None)"
proof (induction s)
  case Nil
  then show ?case by simp
next
  case (Cons c cs)
  show ?case
  proof (cases "match_here env (c # cs)")
    case (Some m')
    with Cons.prems have "match_here env (drop 0 (c # cs)) = Some m" by simp
    then show ?thesis by blast
  next
    case None
    with Cons.prems have "email_search env cs = Some m" by simp
    from Cons.IH [OF this] obtain k where k: "k \<le> length cs"
      and mk: "match_here env (drop k cs) = Some m"
      and first: "\<forall>j<k. match_here env (drop j cs) = None" by blast
    have "\<forall>j<Suc k. match_here env (drop j (c # cs)) = None"
    proof (intro allI impI)
      fix j assume "j < Suc k"
      then show "match_here env (drop j (c # cs)) = None"
        using None first by (cases j) auto
    qed
    with k mk show ?thesis
      by (intro exI [of _ "Suc k"]) simp
  qed
qed

lemma email_search_first:
  assumes "email_search env s = Some m"
  shows "\<exists>pre post l d. s = pre @ m @ post \<and> m = l @ 64 # d \<and> l \<noteq> [] \<and> d \<noteq> []
           \<and> list_all (addr_char env) l \<and> list_all (addr_char env) d
           \<and> (\<forall>j<length pre. match_here env (drop j s) = None)"
proof -
  from email_search_Some [OF assms] obtain k where k: "k \<le> length s"
    and mk: "match_here env (drop k s) = Some m"
    and first: "\<forall>j<k. match_here env (drop j s) = None" by blast
  from match_here_Some [OF mk] obtain l d post where
    dk: "drop k s = m @ post" and m: "m = l @ 64 # d" and l: "l \<noteq> []" and d: "d \<noteq> []"
    and cl: "list_all (addr_char env) l" and cd: "list_all (addr_char env) d" by blast
  have len: "length (take k s) = k" using k by simp
  have "s = take k s @ drop k s" by simp
  then have s: "s = take k s @ m @ post" by (simp only: dk)
  have "\<forall>j<length (take k s). match_here env (drop j s) = None"
    using first by (simp only: len)
  with s m l d cl cd show ?thesis by blast
qed

text \<open>
  C8.  \<open>extract_business_\<close> takes the first (leftmost) substring of the shape
  \<open>[\w\.-]+@[\w\.-]+\<close>, or the whole input when there is none, and returns a business
  exactly when that address splits at \<open>@\<close> (64) into two parts and the second part
  contains a dot (46); the business is then the text before the first dot of the second
  part.  The three examples of the specification hold.
\<close>

theorem extract_business_result:
  "(extract_business env s = Some b \<longleftrightarrow>
      (\<exists>l d. (case email_search env s of Some m \<Rightarrow> m | None \<Rightarrow> s) = l @ 64 # d
             \<and> 64 \<notin> set l \<and> 64 \<notin> set d \<and> 46 \<in> set d
             \<and> b = takeWhile (\<lambda>c. c \<noteq> 46) d))
   \<and> (\<forall>m. email_search env s = Some m \<longrightarrow>
         (\<exists>pre post l d. s = pre @ m @ post \<and> m = l @ 64 # d \<and> l \<noteq> [] \<and> d \<noteq> []
            \<and> list_all (addr_char env) l \<and> list_all (addr_char env) d
            \<and> (\<forall>j<length pre. match_here env (drop j s) = None)))
   \<and> extract_business env (str_of ''invoices@billing.acme.com'') = Some (str_of ''billing'')
   \<and> extract_business env (str_of ''no-domain-struct'') = None
   \<and> extract_business env (str_of ''a@b'') = None"
proof (intro conjI allI impI)
  show "extract_business env s = Some b \<longleftrightarrow>
      (\<exists>l d. (case email_search env s of Some m \<Rightarrow> m | None \<Rightarrow> s) = l @ 64 # d
             \<and> 64 \<notin> set l \<and> 64 \<notin> set d \<and> 46 \<in> set d
             \<and> b = takeWhile (\<lambda>c. c \<noteq> 46) d)"
    using business_of_address [of "case email_search env s of Some m \<Rightarrow> m | None \<Rightarrow> s" b]
    by (simp add: extract_business_def Let_def)
next
  fix m assume "email_search env s = Some m"
  then show "\<exists>pre post l d. s = pre @ m @ post \<and> m = l @ 64 # d \<and> l \<noteq> [] \<and> d \<noteq> []
            \<and> list_all (addr_char env) l \<and> list_all (addr_char env) d
            \<and> (\<forall>j<length pre. match_here env (drop j s) = None)"
    by (rule email_search_first)
qed (simp_all add: extract_business_def str_of_def match_here_def addr_char_def ascii_word_def
       Let_def)

theorem extract_business_result_witness:
  "email_search base_env (str_of ''Billing <invoices@billing.acme.com>'')
     = Some (str_of ''invoices@billing.acme.com'')
   \<and> extract_business base_env (str_of ''Billing <invoices@billing.acme.com>'')
     = Some (str_of ''billing'')"
proof -
  have es: "email_search base_env (str_of ''Billing <invoices@billing.acme.com>'')
     = Some (str_of ''invoices@billing.acme.com'')"
    by (simp add: str_of_def match_here_def addr_char_def ascii_word_def)
  have "\<exists>l d. str_of ''invoices@billing.acme.com'' = l @ 64 # d
             \<and> 64 \<notin> set l \<and> 64 \<notin> set d \<and> 46 \<in> set d
             \<and> str_of ''billing'' = takeWhile (\<lambda>c. c \<noteq> 46) d"
    by (rule exI [of _ "str_of ''invoices''"], rule exI [of _ "str_of ''billing.acme.com''"])
       (simp add: str_of_def)
  with es extract_business_result
      [of base_env "str_of ''Billing <invoices@billing.acme.com>''" "str_of ''billing''"]
  show ?thesis by simp
qed

text \<open>
  C9.  \<open>should_process\<close> returns a truthy value exactly when the criteria file loads, the
  invoice's business is one of its keys, and \<open>re.search\<close> of that key's pattern finds a
  match in the subject; for a business that is no key it returns False, whatever any
  pattern would find in the subject.
\<close>

theorem should_process_truthy:
  "((\<exists>v. should_process env crit_path invc = Inr v \<and> truthy v) \<longleftrightarrow>
      (\<exists>criteria b pattern s g.
          read_json env crit_path = Inr criteria \<and> inv_business invc = Some b
        \<and> criteria b = Some pattern \<and> inv_subject invc = Some s
        \<and> re_search env pattern s = Inr (Some g)))
   \<and> (\<forall>criteria. read_json env crit_path = Inr criteria \<longrightarrow>
         (inv_business invc = None \<or> (\<exists>b. inv_business invc = Some b \<and> criteria b = None)) \<longrightarrow>
         should_process env crit_path invc = Inr PyFalse \<and> \<not> truthy PyFalse)"
proof (intro conjI allI impI)
  show "(\<exists>v. should_process env crit_path invc = Inr v \<and> truthy v) \<longleftrightarrow>
      (\<exists>criteria b pattern s g.
          read_json env crit_path = Inr criteria \<and> inv_business invc = Some b
        \<and> criteria b = Some pattern \<and> inv_subject invc = Some s
        \<and> re_search env pattern s = Inr (Some g))"
    by (auto simp: should_process_def and_then_def truthy_def
        split: sum.splits option.splits verdict.splits)
next
  fix criteria
  assume "read_json env crit_path = Inr criteria"
    and "inv_business invc = None \<or> (\<exists>b. inv_business invc = Some b \<and> criteria b = None)"
  then show "should_process env crit_path invc = Inr PyFalse"
    by (auto simp: should_process_def and_then_def)
next
  show "\<not> truthy PyFalse" by (simp add: truthy_def)
qed

theorem should_process_truthy_witness:
  "should_process routing_env ''criteria.json'' (routed_invoice ''billing'')
     = Inr (Match (str_of ''Invoice''))
   \<and> truthy (Match (str_of ''Invoice''))
   \<and> re_search routing_env (str_of ''Invoice'') (str_of ''Invoice 42'')
     = Inr (Some (str_of ''Invoice''))
   \<and> should_process routing_env ''criteria.json'' (routed_invoice ''other'') = Inr PyFalse"
  using should_process_truthy [of routing_env "''criteria.json''" "routed_invoice ''other''"]
  by (simp add: should_process_def routing_env_def routed_invoice_def and_then_def truthy_def
      str_of_def)


section \<open>Message decoder: results\<close>

lemma py_in_iff: "py_in p s \<longleftrightarrow> (\<exists>a b. s = a @ p @ b)"
proof (induction s)
  case Nil
  then show ?case by auto
next
  case (Cons c cs)
  have pre: "take (length p) (c # cs) = p \<longleftrightarrow> (\<exists>b. c # cs = p @ b)"
    by (metis append_eq_conv_conj)
  have "(\<exists>a b. c # cs = a @ p @ b) \<longleftrightarrow> (\<exists>b. c # cs = p @ b) \<or> (\<exists>a b. cs = a @ p @ b)"
  proof
    assume "\<exists>a b. c # cs = a @ p @ b"
    then obtain a b where ab: "c # cs = a @ p @ b" by blast
    show "(\<exists>b. c # cs = p @ b) \<or> (\<exists>a b. cs = a @ p @ b)"
    proof (cases a)
      case Nil
      with ab show ?thesis by auto
    next
      case (Cons x a')
      with ab have "cs = a' @ p @ b" by simp
      then show ?thesis by blast
    qed
  next
    assume "(\<exists>b. c # cs = p @ b) \<or> (\<exists>a b. cs = a @ p @ b)"
    then show "\<exists>a b. c # cs = a @ p @ b"
    proof
      assume "\<exists>b. c # cs = p @ b"
      then obtain b where "c # cs = [] @ p @ b" by auto
      then show ?thesis by blast
    next
      assume "\<exists>a b. cs = a @ p @ b"
      then obtain a b where "c # cs = (c # a) @ p @ b" by auto
      then show ?thesis by blast
    qed
  qed
  with pre Cons.IH show ?case by simp
qed

text \<open>
  C4, as the code has it.  When the accessors of the parts do not raise,
  \<open>extract_all_pdfs\<close> returns, in part order, the decoded payloads of exactly the parts
  whose filename (\<open>str\<close> of it, lower-cased) contains \<open>.pdf\<close>, the dot included.
\<close>

theorem extract_all_pdfs_selects:
  assumes "list_all (\<lambda>p. \<exists>f. get_filename p = Inr f) parts"
      and "list_all (\<lambda>p. \<exists>b. get_payload p = Inr b) parts"
  shows "\<exists>pdfs. extract_all_pdfs parts = Some pdfs
           \<and> map Inr pdfs =
               map get_payload
                 (filter (\<lambda>p. \<exists>f a b. get_filename p = Inr f
                                  \<and> str_lower (py_str f) = a @ str_of ''.pdf'' @ b) parts)"
proof -
  let ?sel = "\<lambda>p. \<exists>f a b. get_filename p = Inr f \<and> str_lower (py_str f) = a @ str_of ''.pdf'' @ b"
  have tot: "list_all (\<lambda>p. \<exists>b. has_pdf_name p = Inr b) parts"
    using assms(1) by (auto simp: list_all_iff has_pdf_name_def and_then_def)
  have sel: "(has_pdf_name p = Inr True) = ?sel p" for p
    by (cases "get_filename p") (auto simp: has_pdf_name_def and_then_def py_in_iff)
  have f: "filter_try has_pdf_name parts = Inr (filter ?sel parts)"
    using filter_try_total [OF tot] by (simp add: sel)
  have "list_all (\<lambda>p. \<exists>b. get_payload p = Inr b) (filter ?sel parts)"
    using assms(2) by (auto simp: list_all_iff)
  from map_try_total [OF this] obtain pdfs where
    "map_try get_payload (filter ?sel parts) = Inr pdfs"
    "map Inr pdfs = map get_payload (filter ?sel parts)" by blast
  then show ?thesis
    using f by (simp add: extract_all_pdfs_def extract_all_pdfs_try_def and_then_def)
qed

theorem extract_all_pdfs_selects_witness:
  "extract_all_pdfs
     [text_part ''hello'', attachment ''Invoice.PDF'' ''%PDF-1'',
      attachment ''pdfinvoice.txt'' ''plain'', attachment ''scan.pdf.txt'' ''%PDF-2'']
     = Some [Some ''%PDF-1'', Some ''%PDF-2'']"
  using extract_all_pdfs_selects
    [of "[text_part ''hello'', attachment ''Invoice.PDF'' ''%PDF-1'',
          attachment ''pdfinvoice.txt'' ''plain'', attachment ''scan.pdf.txt'' ''%PDF-2'']"]
  by (simp add: extract_all_pdfs_def extract_all_pdfs_try_def has_pdf_name_def and_then_def
      py_str_def str_lower_def str_of_def text_part_def attachment_def)

text \<open>
  The claim as written fails: a filename that contains \<open>pdf\<close> without the dot, such as
  \<open>pdfinvoice.txt\<close>, is not selected.
\<close>

theorem extract_all_pdfs_counterexample:
  "extract_all_pdfs [attachment ''pdfinvoice.txt'' ''total: 42''] = Some []
   \<and> py_in (str_of ''pdf'') (str_lower (py_str (Some (str_of ''pdfinvoice.txt''))))"
  by (simp add: extract_all_pdfs_def extract_all_pdfs_try_def has_pdf_name_def and_then_def
      py_str_def str_lower_def str_of_def attachment_def)

lemma subject_of_fragments_append:
  "subject_of_fragments env (xs @ ys) =
     and_then (subject_of_fragments env xs) (\<lambda>a.
     and_then (subject_of_fragments env ys) (\<lambda>b. Inr (a @ b)))"
  by (simp add: subject_of_fragments_def map_try_append and_then_def split: sum.splits)

text \<open>
  C5, as the code has it.  The subject is the concatenation, in order, of its fragments:
  a str fragment as it is, a byte fragment decoded with its own charset, and with UTF-8
  when it declares none (None or the empty string); the charset detected for the whole
  message takes no part.  The fragments \<open>[(b"Rechnu", "iso-8859-1"), (b"ng #42", "ascii")]\<close>
  give \<open>Rechnung #42\<close>.
\<close>

theorem subject_of_fragments_decoding:
  "subject_of_fragments env [] = Inr []
   \<and> subject_of_fragments env [(FStr s, cs)] = Inr s
   \<and> subject_of_fragments env [(FBytes b, Some (c # cs'))] = decode env (c # cs') b
   \<and> subject_of_fragments env [(FBytes b, Some [])] = decode env ''utf-8'' b
   \<and> subject_of_fragments env [(FBytes b, None)] = decode env ''utf-8'' b
   \<and> subject_of_fragments env (xs @ ys) =
       and_then (subject_of_fragments env xs) (\<lambda>a.
       and_then (subject_of_fragments env ys) (\<lambda>b. Inr (a @ b)))
   \<and> subject_of_fragments base_env
        [(FBytes ''Rechnu'', Some ''iso-8859-1''), (FBytes ''ng #42'', Some ''ascii'')]
       = Inr (str_of ''Rechnung #42'')"
proof (intro conjI)
  show "subject_of_fragments env (xs @ ys) =
       and_then (subject_of_fragments env xs) (\<lambda>a.
       and_then (subject_of_fragments env ys) (\<lambda>b. Inr (a @ b)))"
    by (rule subject_of_fragments_append)
  show "subject_of_fragments base_env
        [(FBytes ''Rechnu'', Some ''iso-8859-1''), (FBytes ''ng #42'', Some ''ascii'')]
       = Inr (str_of ''Rechnung #42'')"
    by (simp add: subject_of_fragments_def decode_fragment_def or_utf8_def and_then_def
        base_env_def py_decode_def str_of_def)
qed (simp_all add: subject_of_fragments_def decode_fragment_def or_utf8_def and_then_def
       split: sum.splits)

text \<open>
  The claim as written fails: a byte fragment without charset in a message detected as
  ISO-8859-1 is decoded as UTF-8, which here raises, where the claim decodes it as
  ISO-8859-1.
\<close>

theorem subject_fallback_counterexample:
  "subject_of_fragments base_env
      [(FBytes [CHR 0xE9, CHR '' ''], None), (FBytes ''x'', Some ''utf-8'')]
     = Inl UnicodeDecodeError
   \<and> spec_subject_of_fragments base_env (Some ''iso-8859-1'')
      [(FBytes [CHR 0xE9, CHR '' ''], None), (FBytes ''x'', Some ''utf-8'')]
     = Inr [233, 32, 120]"
  by (simp add: subject_of_fragments_def spec_subject_of_fragments_def decode_fragment_def
      spec_decode_fragment_def or_utf8_def and_then_def base_env_def py_decode_def emit_def)


section \<open>Sync pipeline: results\<close>

lemmas demo_defs = demo_server_def base_env_def invoice_mail_def plain_mail_def broken_mail_def
  text_part_def attachment_def broken_part_def

lemmas eval_defs = configure_uid_specific_data_def configure_uid_specific_data_try_def
  fetch_message_def business_of_def subject_of_def subject_of_fragments_def decode_fragment_def
  extract_text_def extract_text_try_def is_text_part_def part_text_def or_utf8_def
  extract_all_pdfs_def extract_all_pdfs_try_def has_pdf_name_def py_str_def str_lower_def
  extract_business_def match_here_def addr_char_def ascii_word_def
  and_then_def py_decode_def emit_def str_of_def Let_def
lemma demo_configure_5:
  "configure_uid_specific_data_try demo_server (str_of ''5'') = Inl UnicodeDecodeError"
  by (simp add: configure_uid_specific_data_try_def fetch_message_def demo_server_def
      base_env_def and_then_def py_decode_def str_of_def)

lemma demo_configure_2: "configure_uid_specific_data_try demo_server (str_of ''2'') =
   Inr (Some plain_mail, Some (str_of ''bob@shop.example.org''), Some (str_of ''shop''),
        Some (str_of ''Hello''), Some (str_of ''hi''), Some [])"
  by (simp add: eval_defs demo_defs)

lemma demo_configure_1: "configure_uid_specific_data_try demo_server (str_of ''1'') =
   Inr (Some invoice_mail, Some (str_of ''Billing <invoices@billing.acme.com>''),
        Some (str_of ''billing''), Some (str_of ''Invoice 42''), Some (str_of ''see attachments''),
        Some [Some ''%PDF-A'', Some ''%PDF-B''])"
  by (simp add: eval_defs demo_defs)

lemma demo_configure_4: "configure_uid_specific_data_try demo_server (str_of ''4'') =
   Inr (Some broken_mail, Some (str_of ''eve@corp.example.net''),
        Some (str_of ''corp''), Some (str_of ''Report''), Some (str_of ''hi''), None)"
  by (simp add: eval_defs demo_defs)

lemma create_invoice_and_idoc_append:
  "create_invoice_and_idoc env (xs @ ys) sp dp ep =
     create_invoice_and_idoc env xs sp dp ep @ create_invoice_and_idoc env ys sp dp ep"
  by (induction xs) simp_all

text \<open>
  C1, as the code has it.  The records of a list of identifiers are the records of each
  identifier, in order, whatever happens for the others.  An identifier whose message
  decodes with the PDF attachments \<open>p # ps\<close> gives one record per attachment, in order,
  all with the same message context; with no PDF attachment it gives one record without
  attachment; and when the decode fails it gives one record as well, with no message
  context and no attachment.
\<close>

theorem create_invoice_and_idoc_records:
  "create_invoice_and_idoc env (pre @ u # post) sp dp ep =
     create_invoice_and_idoc env pre sp dp ep @ create_invoice_and_idoc env [u] sp dp ep
       @ create_invoice_and_idoc env post sp dp ep
   \<and> (\<forall>m a b s t p ps.
        configure_uid_specific_data_try env u = Inr (m, a, b, s, t, Some (p # ps)) \<longrightarrow>
        create_invoice_and_idoc env [u] sp dp ep =
          map (\<lambda>pdf. (\<lparr>inv_uid = u, inv_adress = a, inv_message = m, inv_business = b,
                        inv_subject = s, inv_text = t, inv_pdf = pdf\<rparr>, (sp, dp, ep))) (p # ps)
        \<and> length (create_invoice_and_idoc env [u] sp dp ep) = length (p # ps))
   \<and> (\<forall>m a b s t.
        configure_uid_specific_data_try env u = Inr (m, a, b, s, t, Some []) \<longrightarrow>
        create_invoice_and_idoc env [u] sp dp ep =
          [(\<lparr>inv_uid = u, inv_adress = a, inv_message = m, inv_business = b,
             inv_subject = s, inv_text = t, inv_pdf = None\<rparr>, (sp, dp, ep))])
   \<and> (\<forall>e.
        configure_uid_specific_data_try env u = Inl e \<longrightarrow>
        create_invoice_and_idoc env [u] sp dp ep =
          [(\<lparr>inv_uid = u, inv_adress = None, inv_message = None, inv_business = None,
             inv_subject = None, inv_text = None, inv_pdf = None\<rparr>, (sp, dp, ep))])"
proof (intro conjI allI impI)
  have "create_invoice_and_idoc env (pre @ [u] @ post) sp dp ep =
     create_invoice_and_idoc env pre sp dp ep @ create_invoice_and_idoc env [u] sp dp ep
       @ create_invoice_and_idoc env post sp dp ep"
    by (simp only: create_invoice_and_idoc_append)
  then show "create_invoice_and_idoc env (pre @ u # post) sp dp ep =
     create_invoice_and_idoc env pre sp dp ep @ create_invoice_and_idoc env [u] sp dp ep
       @ create_invoice_and_idoc env post sp dp ep"
    by simp
qed (simp_all add: configure_uid_specific_data_def)

theorem create_invoice_and_idoc_records_witness:
  "create_invoice_and_idoc demo_server [str_of ''1'', str_of ''5'', str_of ''2''] ''s'' ''d'' ''e'' =
     [(\<lparr>inv_uid = str_of ''1'', inv_adress = Some (str_of ''Billing <invoices@billing.acme.com>''),
        inv_message = Some invoice_mail, inv_business = Some (str_of ''billing''),
        inv_subject = Some (str_of ''Invoice 42''), inv_text = Some (str_of ''see attachments''),
        inv_pdf = Some ''%PDF-A''\<rparr>, (''s'', ''d'', ''e'')),
      (\<lparr>inv_uid = str_of ''1'', inv_adress = Some (str_of ''Billing <invoices@billing.acme.com>''),
        inv_message = Some invoice_mail, inv_business = Some (str_of ''billing''),
        inv_subject = Some (str_of ''Invoice 42''), inv_text = Some (str_of ''see attachments''),
        inv_pdf = Some ''%PDF-B''\<rparr>, (''s'', ''d'', ''e'')),
      (\<lparr>inv_uid = str_of ''5'', inv_adress = None, inv_message = None, inv_business = None,
        inv_subject = None, inv_text = None, inv_pdf = None\<rparr>, (''s'', ''d'', ''e'')),
      (\<lparr>inv_uid = str_of ''2'', inv_adress = Some (str_of ''bob@shop.example.org''),
        inv_message = Some plain_mail, inv_business = Some (str_of ''shop''),
        inv_subject = Some (str_of ''Hello''), inv_text = Some (str_of ''hi''),
        inv_pdf = None\<rparr>, (''s'', ''d'', ''e''))]"
proof -
  note r1 = create_invoice_and_idoc_records
      [of demo_server "[]" "str_of ''1''" "[str_of ''5'', str_of ''2'']" "''s''" "''d''" "''e''"]
  note r5 = create_invoice_and_idoc_records
      [of demo_server "[]" "str_of ''5''" "[str_of ''2'']" "''s''" "''d''" "''e''"]
  note r2 = create_invoice_and_idoc_records
      [of demo_server "[]" "str_of ''2''" "[]" "''s''" "''d''" "''e''"]
  from r2 demo_configure_2 have c2: "create_invoice_and_idoc demo_server [str_of ''2''] ''s'' ''d'' ''e'' =
      [(\<lparr>inv_uid = str_of ''2'', inv_adress = Some (str_of ''bob@shop.example.org''),
        inv_message = Some plain_mail, inv_business = Some (str_of ''shop''),
        inv_subject = Some (str_of ''Hello''), inv_text = Some (str_of ''hi''),
        inv_pdf = None\<rparr>, (''s'', ''d'', ''e''))]"
    by blast
  from r5 demo_configure_5 have c5: "create_invoice_and_idoc demo_server [str_of ''5''] ''s'' ''d'' ''e'' =
      [(\<lparr>inv_uid = str_of ''5'', inv_adress = None, inv_message = None, inv_business = None,
        inv_subject = None, inv_text = None, inv_pdf = None\<rparr>, (''s'', ''d'', ''e''))]"
    by blast
  from r1 demo_configure_1 have c1: "create_invoice_and_idoc demo_server [str_of ''1''] ''s'' ''d'' ''e'' =
      map (\<lambda>pdf. (\<lparr>inv_uid = str_of ''1'',
                    inv_adress = Some (str_of ''Billing <invoices@billing.acme.com>''),
                    inv_message = Some invoice_mail, inv_business = Some (str_of ''billing''),
                    inv_subject = Some (str_of ''Invoice 42''),
                    inv_text = Some (str_of ''see attachments''),
                    inv_pdf = pdf\<rparr>, (''s'', ''d'', ''e''))) [Some ''%PDF-A'', Some ''%PDF-B'']"
    by blast
  have "create_invoice_and_idoc demo_server ([str_of ''1''] @ [str_of ''5''] @ [str_of ''2'']) ''s'' ''d'' ''e'' =
      create_invoice_and_idoc demo_server [str_of ''1''] ''s'' ''d'' ''e''
      @ create_invoice_and_idoc demo_server [str_of ''5''] ''s'' ''d'' ''e''
      @ create_invoice_and_idoc demo_server [str_of ''2''] ''s'' ''d'' ''e''"
    by (simp only: create_invoice_and_idoc_append)
  then show ?thesis
    by (simp only: c1 c2 c5 list.map append.simps)
qed

text \<open>
  The claim as written fails: a failed decode gives one record, not none.
\<close>

theorem decode_failure_counterexample:
  "configure_uid_specific_data_try demo_server (str_of ''5'') = Inl UnicodeDecodeError
   \<and> create_invoice_and_idoc demo_server [str_of ''5''] ''s'' ''d'' ''e'' =
       [(\<lparr>inv_uid = str_of ''5'', inv_adress = None, inv_message = None, inv_business = None,
          inv_subject = None, inv_text = None, inv_pdf = None\<rparr>, (''s'', ''d'', ''e''))]
   \<and> length (create_invoice_and_idoc demo_server [str_of ''5''] ''s'' ''d'' ''e'') = 1"
  by (simp add: configure_uid_specific_data_def demo_configure_5)

lemma configure_pdfs:
  assumes "configure_uid_specific_data_try env u = Inr (Some msg, a, b, s, t, pdfs)"
  shows "pdfs = extract_all_pdfs (walk msg)"
  using assms
  by (auto simp: configure_uid_specific_data_try_def and_then_def split: sum.splits)

text \<open>
  C10.  When the message of an identifier decodes but \<open>extract_all_pdfs\<close> returns None,
  \<open>create_invoice_and_idoc\<close> yields exactly one record for it, without attachment; its
  attachment fields are those of a message that has no PDF attachment at all.
\<close>

theorem extraction_failure_one_record:
  assumes "configure_uid_specific_data_try env u = Inr (Some msg, a, b, s, t, pdfs)"
      and "extract_all_pdfs (walk msg) = None"
  shows "create_invoice_and_idoc env [u] sp dp ep =
           [(\<lparr>inv_uid = u, inv_adress = a, inv_message = Some msg, inv_business = b,
              inv_subject = s, inv_text = t, inv_pdf = None\<rparr>, (sp, dp, ep))]
         \<and> (\<forall>env' u' m' a' b' s' t'.
               configure_uid_specific_data_try env' u' = Inr (m', a', b', s', t', Some []) \<longrightarrow>
               map (\<lambda>r. inv_pdf (fst r)) (create_invoice_and_idoc env' [u'] sp dp ep)
                 = map (\<lambda>r. inv_pdf (fst r)) (create_invoice_and_idoc env [u] sp dp ep))"
proof -
  from configure_pdfs [OF assms(1)] assms(2) have "pdfs = None" by simp
  with assms(1) show ?thesis
    by (simp add: configure_uid_specific_data_def)
qed

theorem extraction_failure_one_record_witness:
  "extract_all_pdfs (walk broken_mail) = None
   \<and> create_invoice_and_idoc demo_server [str_of ''4''] ''s'' ''d'' ''e'' =
       [(\<lparr>inv_uid = str_of ''4'', inv_adress = Some (str_of ''eve@corp.example.net''),
          inv_message = Some broken_mail, inv_business = Some (str_of ''corp''),
          inv_subject = Some (str_of ''Report''), inv_text = Some (str_of ''hi''),
          inv_pdf = None\<rparr>, (''s'', ''d'', ''e''))]
   \<and> map (\<lambda>r. inv_pdf (fst r)) (create_invoice_and_idoc demo_server [str_of ''2''] ''s'' ''d'' ''e'')
       = map (\<lambda>r. inv_pdf (fst r)) (create_invoice_and_idoc demo_server [str_of ''4''] ''s'' ''d'' ''e'')"
proof -
  have x: "extract_all_pdfs (walk broken_mail) = None"
    by (simp add: broken_mail_def broken_part_def text_part_def extract_all_pdfs_def
        extract_all_pdfs_try_def has_pdf_name_def and_then_def py_str_def str_lower_def str_of_def)
  from extraction_failure_one_record [OF demo_configure_4 x, of "''s''" "''d''" "''e''"] demo_configure_2 x
  show ?thesis by blast
qed

section \<open>Metadata cache writer: results\<close>

lemma configure_steps:
  assumes "configure_uid_specific_data_try env u = Inr (Some msg, a, b, Some s, t, pdfs)"
  shows "fetch_message env u = Inr msg \<and> business_of env msg = Inr b \<and> subject_of env msg = Inr s"
  using assms
  by (auto simp: configure_uid_specific_data_try_def and_then_def split: sum.splits)

lemma set_metadata_redis_stops:
  "metadata_step env rclient u = Inl e \<Longrightarrow> set_metadata_redis env rclient (u # uids) = rclient"
  by (simp add: set_metadata_redis_def)

text \<open>
  C7.  With the identifiers 1, 3 and 2, where the fetch of 3 fails, the record of 1 is
  written and nothing is written for 2, although 2 alone is written.
\<close>

theorem set_metadata_redis_aborts_batch:
  "set_metadata_redis demo_server Map.empty [str_of ''1'', str_of ''3'', str_of ''2'']
     = [str_of ''1'' \<mapsto> (Some (str_of ''billing''), str_of ''Invoice 42'')]
   \<and> set_metadata_redis demo_server Map.empty [str_of ''1'', str_of ''3'', str_of ''2'']
       (str_of ''2'') = None
   \<and> set_metadata_redis demo_server Map.empty [str_of ''2''] (str_of ''2'')
       = Some (Some (str_of ''shop''), str_of ''Hello'')"
proof -
  have f3: "fetch_message demo_server (str_of ''3'') = Inl ImapError"
    by (simp add: fetch_message_def demo_server_def base_env_def and_then_def str_of_def)
  have h: "hset_error demo_server k (Some b, s) = None" for k b s
    by (simp add: demo_server_def base_env_def)
  have s3: "metadata_step demo_server rclient (str_of ''3'') = Inl ImapError" for rclient
    by (simp add: metadata_step_def f3 and_then_def)
  have s1: "metadata_step demo_server Map.empty (str_of ''1'')
      = Inr [str_of ''1'' \<mapsto> (Some (str_of ''billing''), str_of ''Invoice 42'')]"
    using configure_steps [OF demo_configure_1]
    by (simp add: metadata_step_def and_then_def h)
  have s2: "metadata_step demo_server Map.empty (str_of ''2'')
      = Inr [str_of ''2'' \<mapsto> (Some (str_of ''shop''), str_of ''Hello'')]"
    using configure_steps [OF demo_configure_2]
    by (simp add: metadata_step_def and_then_def h)
  have all: "set_metadata_redis demo_server Map.empty [str_of ''1'', str_of ''3'', str_of ''2'']
     = [str_of ''1'' \<mapsto> (Some (str_of ''billing''), str_of ''Invoice 42'')]"
    by (simp add: set_metadata_redis_def s1 s3)
  have two: "set_metadata_redis demo_server Map.empty [str_of ''2''] (str_of ''2'')
       = Some (Some (str_of ''shop''), str_of ''Hello'')"
    by (simp add: set_metadata_redis_def s2)
  have "[str_of ''1'' \<mapsto> (Some (str_of ''billing''), str_of ''Invoice 42'')] (str_of ''2'') = None"
    by (simp add: str_of_def)
  with all two show ?thesis by simp
qed

end
